theory Spec2Isabelle
  imports Complex_Main "HOL-Library.Word" "HOL-Library.List_Lexorder" "HOL-Library.Char_ord"
begin

section \<open>The gender pay gap audit script\<close>

text \<open>
  The program is one straight-line Python script (\<^verbatim>\<open>src/code.py\<close>): it loads a table of
  employees, adds derived columns, prints grouped summaries, fits five regressions given as
  formula strings, and writes report files. The theory has three parts: the formula strings
  and what they name, the script as the sequence of its top-level statements, and the
  row-wise meaning of the cleaning and aggregation steps.
\<close>

subsection \<open>Regression formulas\<close>

text \<open>
  The five formula strings, as written at lines 125, 129, 133, 177 and 204.
\<close>

definition model1_formula :: string where
  "model1_formula = ''log_base ~ male''"

definition model2_formula :: string where
  "model2_formula = ''log_base ~ male + perfEval + C(age_bin) + C(edu)''"

definition model3_formula :: string where
  "model3_formula =
     ''log_base ~ male + perfEval + C(age_bin) + C(edu) + C(dept) + seniority + C(jobTitle)''"

definition dept_formula :: string where
  "dept_formula =
     ''log_base ~ male*C(dept) + perfEval + C(age_bin) + C(edu) + seniority + C(jobTitle)''"

definition job_formula :: string where
  "job_formula =
     ''log_base ~ male*C(jobTitle) + perfEval + C(age_bin) + C(edu) + seniority + C(dept)''"

text \<open>
  The formula language is read the way the formula library reads the operators that occur
  in these five strings: blanks are ignored, \<^verbatim>\<open>~\<close> separates the outcome from the
  right-hand side, \<^verbatim>\<open>+\<close> separates the summands, \<^verbatim>\<open>a*b\<close> stands for the three terms
  \<^verbatim>\<open>a\<close>, \<^verbatim>\<open>b\<close> and \<^verbatim>\<open>a:b\<close>, and \<^verbatim>\<open>C(x)\<close> marks column \<^verbatim>\<open>x\<close> as categorical. None
  of the strings has an operator inside parentheses, so splitting needs no nesting depth.
  The intercept that every formula gets implicitly is not listed among the regressors.
\<close>

fun split_on :: "char \<Rightarrow> string \<Rightarrow> string list" where
  "split_on c [] = [[]]"
| "split_on c (x # xs) =
     (if x = c then [] # split_on c xs
      else (case split_on c xs of
              [] \<Rightarrow> [[x]]
            | y # ys \<Rightarrow> (x # y) # ys))"

definition strip_blanks :: "string \<Rightarrow> string" where
  "strip_blanks s = filter (\<lambda>c. c \<noteq> CHR '' '') s"

definition outcome :: "string \<Rightarrow> string" where
  "outcome f = (case split_on CHR ''~'' (strip_blanks f) of [] \<Rightarrow> [] | l # _ \<Rightarrow> l)"

definition summands :: "string \<Rightarrow> string list" where
  "summands f =
     (case split_on CHR ''~'' (strip_blanks f) of
        [_, r] \<Rightarrow> split_on CHR ''+'' r
      | _ \<Rightarrow> [])"

definition expand_star :: "string \<Rightarrow> string list" where
  "expand_star t =
     (case split_on CHR ''*'' t of
        [a, b] \<Rightarrow> [a, b, a @ '':'' @ b]
      | _ \<Rightarrow> [t])"

definition regressors :: "string \<Rightarrow> string list" where
  "regressors f = concat (map expand_star (summands f))"

definition factor_column :: "string \<Rightarrow> string" where
  "factor_column t =
     (if take 2 t = ''C('' \<and> t \<noteq> [] \<and> last t = CHR '')'' then butlast (drop 2 t) else t)"

definition term_columns :: "string \<Rightarrow> string list" where
  "term_columns t = map factor_column (split_on CHR '':'' t)"

definition formula_columns :: "string \<Rightarrow> string list" where
  "formula_columns f = outcome f # concat (map term_columns (regressors f))"

subsection \<open>The script as a sequence of statements\<close>

text \<open>
  One constructor for each kind of statement of the script, with the arguments the
  properties below look at. A \<^verbatim>\<open>to_html\<close> or \<^verbatim>\<open>to_csv\<close> call is \<open>WriteFile name\<close>; a block
  \<^verbatim>\<open>with open(name, 'w') as f: f.write(x)\<close> is \<open>WithOpen name [FileWrite x]\<close>. The script has
  no \<^verbatim>\<open>if\<close>, no loop and no function definition. It has no \<^verbatim>\<open>try\<close> statement either; the
  type has one, \<open>TryExcept body handler\<close>, so that its absence is a property of the script
  and not of the type.
\<close>

datatype stmt =
    Import string
  | SetOption
  | ReadCsv
  | AssignColumn string
  | LocAssign string int
  | CastCategory string
  | Print string
  | Describe
  | GroupAgg string "string list"
  | OlsFit string string
  | Assign string
  | WriteFile string
  | FileWrite string
  | WithOpen string "stmt list"
  | TryExcept "stmt list" "stmt list"

definition script :: "stmt list" where
  "script =
    [ Import ''pandas'', Import ''numpy'', Import ''statsmodels.api'',
      Import ''statsmodels.formula.api'', Import ''statsmodels.iolib.summary2'',
      SetOption,
      ReadCsv,
      AssignColumn ''age_bin'',
      LocAssign ''age_bin'' 1, LocAssign ''age_bin'' 2, LocAssign ''age_bin'' 3,
      LocAssign ''age_bin'' 4, LocAssign ''age_bin'' 5,
      AssignColumn ''totalPay'',
      AssignColumn ''log_base'', AssignColumn ''log_total'', AssignColumn ''log_bonus'',
      AssignColumn ''male'',
      Print ''data.info()'',
      CastCategory ''jobTitle'', CastCategory ''gender'', CastCategory ''edu'',
      CastCategory ''dept'',
      Describe,
      WriteFile ''summary.html'',
      GroupAgg ''summary_base'' [''gender''], Print ''summary_base'',
      GroupAgg ''summary_total'' [''gender''], Print ''summary_total'',
      GroupAgg ''summary_bonus'' [''gender''], Print ''summary_bonus'',
      GroupAgg ''summary_perf'' [''gender''], Print ''summary_perf'',
      GroupAgg ''summary_dept'' [''dept'', ''gender''], Print ''summary_dept'',
      GroupAgg ''summary_job'' [''jobTitle'', ''gender''], Print ''summary_job'',
      OlsFit ''model1'' model1_formula, Print ''model1.summary()'',
      OlsFit ''model2'' model2_formula, Print ''model2.summary()'',
      OlsFit ''model3'' model3_formula, Print ''model3.summary()'',
      Assign ''logbase_pay_gap'', Assign ''logbase_pay_pvalue'',
      Print ''logbase_pay_gap'', Print ''logbase_pay_pvalue'',
      Assign ''models'', Assign ''model_names'',
      Assign ''results_table'',
      Assign ''control_info'',
      Assign ''html_content'', Assign ''html_content'',
      WithOpen ''results.html'' [FileWrite ''html_content''],
      Assign ''dept_formula'',
      OlsFit ''dept_results'' dept_formula, Print ''dept_results.summary()'',
      Assign ''dept_results_df'',
      WriteFile ''dept_clean.csv'',
      WithOpen ''dept.html'' [FileWrite ''dept_results.summary().as_html()''],
      Assign ''job_formula'',
      OlsFit ''job_results'' job_formula, Print ''job_results.summary()'',
      Assign ''job_results_df'',
      WriteFile ''job_clean.csv'',
      WithOpen ''job.html'' [FileWrite ''job_results.summary().as_html()''] ]"

text \<open>The regressions of the script, in the order they are fitted: name and formula.\<close>

fun fit_of :: "stmt \<Rightarrow> (string \<times> string) option" where
  "fit_of (OlsFit name f) = Some (name, f)"
| "fit_of _ = None"

definition regressions :: "(string \<times> string) list" where
  "regressions = List.map_filter fit_of script"

text \<open>The stage of the pipeline a statement belongs to.\<close>

datatype stage = Setup | Load | Transform | Overall | Grouped | Regression | Export | Other

fun stage_of :: "stmt \<Rightarrow> stage" where
  "stage_of (Import _) = Setup"
| "stage_of SetOption = Setup"
| "stage_of ReadCsv = Load"
| "stage_of (AssignColumn _) = Transform"
| "stage_of (LocAssign _ _) = Transform"
| "stage_of (CastCategory _) = Transform"
| "stage_of Describe = Overall"
| "stage_of (GroupAgg _ _) = Grouped"
| "stage_of (OlsFit _ _) = Regression"
| "stage_of (WriteFile _) = Export"
| "stage_of (FileWrite _) = Export"
| "stage_of (WithOpen _ _) = Export"
| "stage_of (TryExcept _ _) = Other"
| "stage_of (Print _) = Other"
| "stage_of (Assign _) = Other"

subsection \<open>Running the script\<close>

text \<open>
  What the library calls do to the interpreter state is the libraries' business and is a
  parameter \<open>L\<close>: the meaning of a simple statement, of opening a file and of closing it,
  each giving the new state or the exception raised. These are the operations of a run.
\<close>

datatype prim = Stmt stmt | Open string | Close string

record ('e, 's) lib =
  simple :: "stmt \<Rightarrow> 's \<Rightarrow> 'e + 's"
  open_file :: "string \<Rightarrow> 's \<Rightarrow> 'e + 's"
  close_file :: "string \<Rightarrow> 's \<Rightarrow> 'e + 's"

fun prim_sem :: "('e, 's) lib \<Rightarrow> prim \<Rightarrow> 's \<Rightarrow> 'e + 's" where
  "prim_sem L (Stmt x) s = simple L x s"
| "prim_sem L (Open f) s = open_file L f s"
| "prim_sem L (Close f) s = close_file L f s"

text \<open>
  A run ends with an exception, in the state it was raised in, or finishes. Statements run
  in order. A \<^verbatim>\<open>with\<close> block opens the file, runs its body and closes the file, also when
  the body raises; the exception of the body then goes on, unless the closing raises too,
  and then the closing's exception goes on instead. A \<^verbatim>\<open>try\<close> statement runs its handler
  when its body raises, and goes on after it. The run returns the log of the operations it
  started, each with the state it started in.
\<close>

datatype ('e, 's) result = Raised 'e 's | Finished 's

function (sequential) exec ::
  "('e, 's) lib \<Rightarrow> stmt list \<Rightarrow> 's \<Rightarrow> (prim \<times> 's) list \<times> ('e, 's) result" where
  "exec L [] s = ([], Finished s)"
| "exec L (WithOpen f body # rest) s =
     (case open_file L f s of
        Inl e \<Rightarrow> ([(Open f, s)], Raised e s)
      | Inr s1 \<Rightarrow>
          (case exec L body s1 of
             (lg, Raised e s2) \<Rightarrow>
               (case close_file L f s2 of
                  Inl e' \<Rightarrow> ((Open f, s) # lg @ [(Close f, s2)], Raised e' s2)
                | Inr s3 \<Rightarrow> ((Open f, s) # lg @ [(Close f, s2)], Raised e s3))
           | (lg, Finished s2) \<Rightarrow>
               (case close_file L f s2 of
                  Inl e' \<Rightarrow> ((Open f, s) # lg @ [(Close f, s2)], Raised e' s2)
                | Inr s3 \<Rightarrow>
                    (case exec L rest s3 of
                       (lg', r) \<Rightarrow> ((Open f, s) # lg @ (Close f, s2) # lg', r)))))"
| "exec L (TryExcept body handler # rest) s =
     (case exec L body s of
        (lg, Raised e s1) \<Rightarrow>
          (case exec L handler s1 of
             (lg', Raised e' s2) \<Rightarrow> (lg @ lg', Raised e' s2)
           | (lg', Finished s2) \<Rightarrow>
               (case exec L rest s2 of (lg'', r) \<Rightarrow> (lg @ lg' @ lg'', r)))
      | (lg, Finished s1) \<Rightarrow>
          (case exec L rest s1 of (lg', r) \<Rightarrow> (lg @ lg', r)))"
| "exec L (x # rest) s =
     (case simple L x s of
        Inl e \<Rightarrow> ([(Stmt x, s)], Raised e s)
      | Inr s1 \<Rightarrow> (case exec L rest s1 of (lg, r) \<Rightarrow> ((Stmt x, s) # lg, r)))"
  by pat_completeness auto
termination
  by (relation "measure (\<lambda>(L, xs, s). size_list size xs)") auto

text \<open>The operations of a statement list, in the order of the text.\<close>

function (sequential) prims :: "stmt list \<Rightarrow> prim list" where
  "prims [] = []"
| "prims (WithOpen f body # rest) = Open f # prims body @ Close f # prims rest"
| "prims (TryExcept body handler # rest) = prims body @ prims handler @ prims rest"
| "prims (x # rest) = Stmt x # prims rest"
  by pat_completeness auto
termination
  by (relation "measure (size_list size)") auto

text \<open>A statement with no \<^verbatim>\<open>try\<close> in it, and a statement that is one operation.\<close>

fun handler_free :: "stmt \<Rightarrow> bool" where
  "handler_free (TryExcept body handler) = False"
| "handler_free (WithOpen f body) = list_all handler_free body"
| "handler_free _ = True"

fun is_simple :: "stmt \<Rightarrow> bool" where
  "is_simple (WithOpen f body) = False"
| "is_simple (TryExcept body handler) = False"
| "is_simple _ = True"

text \<open>
  Of a log: an entry whose operation did not raise; an entry that is the closing of a file;
  and the exception that is left of \<open>e\<close> after the entries of a log: the one that the last
  of them to raise has raised, or \<open>e\<close> itself when none of them raises.
\<close>

definition succeeds :: "('e, 's) lib \<Rightarrow> prim \<times> 's \<Rightarrow> bool" where
  "succeeds L y = (\<not> isl (prim_sem L (fst y) (snd y)))"

fun is_close :: "prim \<Rightarrow> bool" where
  "is_close (Close f) = True"
| "is_close _ = False"

fun final_exn :: "('e, 's) lib \<Rightarrow> 'e \<Rightarrow> (prim \<times> 's) list \<Rightarrow> 'e" where
  "final_exn L e [] = e"
| "final_exn L e (y # lg) =
     (case prim_sem L (fst y) (snd y) of
        Inl e' \<Rightarrow> final_exn L e' lg
      | Inr _ \<Rightarrow> final_exn L e lg)"

text \<open>
  What a run of statements with no \<^verbatim>\<open>try\<close> leaves: when it finishes, a log of operations
  that succeeded, all the operations of the statements; when it ends with an exception, a
  log of operations that succeeded, then the first operation that raised, then closings of
  files only, and the exception left after those closings.
\<close>

definition log_ok ::
  "('e, 's) lib \<Rightarrow> stmt list \<Rightarrow> (prim \<times> 's) list \<Rightarrow> ('e, 's) result \<Rightarrow> bool" where
  "log_ok L xs lg r =
     (case r of
        Finished _ \<Rightarrow> list_all (succeeds L) lg \<and> map fst lg = prims xs
      | Raised e _ \<Rightarrow>
          (\<exists>pre x post e0 later.
             lg = pre @ x # post \<and> list_all (succeeds L) pre
             \<and> prim_sem L (fst x) (snd x) = Inl e0
             \<and> prims xs = map fst pre @ fst x # later
             \<and> list_all (\<lambda>y. is_close (fst y)) post
             \<and> e = final_exn L e0 post))"

subsection \<open>Rows, cleaning and the derived columns\<close>

text \<open>
  The two pay columns are added, to each other at line 41 and to 1 at line 46, so their
  cells carry their number type: a 64-bit signed integer (the type of a column that holds
  only integers), a float, or missing (the table library's NaN, which makes the column a
  float column). A float is the real number it denotes; infinities are not modelled.
\<close>

datatype num = I64 "64 word" | F64 real | NA

fun value_of :: "num \<Rightarrow> real option" where
  "value_of (I64 w) = Some (real_of_int (sint w))"
| "value_of (F64 x) = Some x"
| "value_of NA = None"

text \<open>
  Adding two cells. Two integers add as 64-bit integers and wrap around. When a float is
  involved the result is the float sum of the two numbers; float addition rounds, and is
  the parameter \<open>fadd\<close>. A missing cell makes the sum missing.
\<close>

fun add_num :: "(real \<Rightarrow> real \<Rightarrow> real) \<Rightarrow> num \<Rightarrow> num \<Rightarrow> num" where
  "add_num fadd (I64 a) (I64 b) = I64 (a + b)"
| "add_num fadd NA _ = NA"
| "add_num fadd _ NA = NA"
| "add_num fadd (I64 a) (F64 y) = F64 (fadd (real_of_int (sint a)) y)"
| "add_num fadd (F64 x) (I64 b) = F64 (fadd x (real_of_int (sint b)))"
| "add_num fadd (F64 x) (F64 y) = F64 (fadd x y)"

text \<open>
  A row of the loaded table. The other numeric cells are only compared, averaged or read
  by a regression: each is the real number it holds or missing (\<open>None\<close>). A text cell is a
  string or missing.
\<close>

record raw_row =
  jobTitle :: "string option"
  gender :: "string option"
  age :: "real option"
  perfEval :: "real option"
  edu :: "string option"
  dept :: "string option"
  seniority :: "real option"
  basePay :: num
  bonus :: num

text \<open>
  The value of a logarithm column: a finite number, minus infinity (the logarithm of zero)
  or NaN (the logarithm of a negative or of a missing number). The logarithm is taken of
  the number a cell holds; its rounding is not modelled.
\<close>

datatype fval = Fin real | NegInf | NaN


definition np_log :: "real option \<Rightarrow> fval" where
  "np_log v =
     (case v of
        None \<Rightarrow> NaN
      | Some x \<Rightarrow> if 0 < x then Fin (ln x) else if x = 0 then NegInf else NaN)"

text \<open>Comparisons of a cell with a number; a missing cell compares false.\<close>

definition lt_na :: "real option \<Rightarrow> real \<Rightarrow> bool" where
  "lt_na a c = (case a of None \<Rightarrow> False | Some x \<Rightarrow> x < c)"

definition ge_na :: "real option \<Rightarrow> real \<Rightarrow> bool" where
  "ge_na a c = (case a of None \<Rightarrow> False | Some x \<Rightarrow> c \<le> x)"

text \<open>
  Lines 33 to 38: the column starts at 0 and five masked assignments follow, in this order.
\<close>

definition age_bin_of :: "real option \<Rightarrow> int" where
  "age_bin_of a =
     (let b = 0;
          b = (if lt_na a 25 then 1 else b);
          b = (if ge_na a 25 \<and> lt_na a 35 then 2 else b);
          b = (if ge_na a 35 \<and> lt_na a 45 then 3 else b);
          b = (if ge_na a 45 \<and> lt_na a 55 then 4 else b);
          b = (if ge_na a 55 then 5 else b)
      in b)"

text \<open>Line 49: the comparison with the string, cast to an integer.\<close>

definition male_of :: "string option \<Rightarrow> int" where
  "male_of g = (if g = Some ''Male'' then 1 else 0)"

record row = raw_row +
  age_bin :: int
  totalPay :: num
  log_base :: fval
  log_total :: fval
  log_bonus :: fval
  male :: int

text \<open>
  Lines 33 to 49 on one row, given the float addition; the casts of lines 55 to 58 change
  no value.
\<close>

definition clean_row :: "(real \<Rightarrow> real \<Rightarrow> real) \<Rightarrow> raw_row \<Rightarrow> row" where
  "clean_row fadd r =
     (let tp = add_num fadd (basePay r) (bonus r)
      in raw_row.extend r
           (row.fields (age_bin_of (age r)) tp (np_log (value_of (basePay r)))
              (np_log (value_of tp))
              (np_log (value_of (add_num fadd (bonus r) (I64 1)))) (male_of (gender r))))"

definition clean :: "(real \<Rightarrow> real \<Rightarrow> real) \<Rightarrow> raw_row list \<Rightarrow> row list" where
  "clean fadd df = map (clean_row fadd) df"






subsection \<open>Grouped aggregation\<close>

















subsection \<open>Sample data\<close>

text \<open>A row with every cell present but the four given ones, for concrete instances.\<close>

definition employee :: "string option \<Rightarrow> real option \<Rightarrow> num \<Rightarrow> num \<Rightarrow> raw_row" where
  "employee g a p b =
     \<lparr>jobTitle = Some ''Driver'', gender = g, age = a, perfEval = Some 3,
      edu = Some ''College'', dept = Some ''Sales'', seniority = Some 2,
      basePay = p, bonus = b\<rparr>"


text \<open>
  A sample library, for concrete runs: the state counts the operations that finished, and
  loading the table raises.
\<close>

definition failing_load :: "(string, nat) lib" where
  "failing_load =
     \<lparr>simple = (\<lambda>x s. if x = ReadCsv then Inl ''HTTPError'' else Inr (Suc s)),
      open_file = (\<lambda>f s. Inr (Suc s)),
      close_file = (\<lambda>f s. Inr (Suc s))\<rparr>"

text \<open>
  Another one: writing into an open file raises, and closing a file raises too, as on a
  device with no space left.
\<close>

definition double_fault :: "(string, nat) lib" where
  "double_fault =
     \<lparr>simple = (\<lambda>x s. case x of FileWrite _ \<Rightarrow> Inl ''write failed'' | _ \<Rightarrow> Inr (Suc s)),
      open_file = (\<lambda>f s. Inr (Suc s)),
      close_file = (\<lambda>f s. Inl ''close failed'')\<rparr>"

section \<open>Properties\<close>

subsection \<open>The formulas, evaluated\<close>

lemmas formula_eval =
  regressors_def summands_def outcome_def strip_blanks_def expand_star_def
  factor_column_def term_columns_def formula_columns_def

lemma regressors_model1: "regressors model1_formula = [''male'']"
  by (simp add: formula_eval model1_formula_def)

lemma regressors_model2:
  "regressors model2_formula = [''male'', ''perfEval'', ''C(age_bin)'', ''C(edu)'']"
  by (simp add: formula_eval model2_formula_def)

lemma regressors_model3:
  "regressors model3_formula =
     [''male'', ''perfEval'', ''C(age_bin)'', ''C(edu)'', ''C(dept)'', ''seniority'',
      ''C(jobTitle)'']"
  by (simp add: formula_eval model3_formula_def)

lemma regressors_dept:
  "regressors dept_formula =
     [''male'', ''C(dept)'', ''male:C(dept)'', ''perfEval'', ''C(age_bin)'', ''C(edu)'',
      ''seniority'', ''C(jobTitle)'']"
  by (simp add: formula_eval dept_formula_def)

lemma regressors_job:
  "regressors job_formula =
     [''male'', ''C(jobTitle)'', ''male:C(jobTitle)'', ''perfEval'', ''C(age_bin)'', ''C(edu)'',
      ''seniority'', ''C(dept)'']"
  by (simp add: formula_eval job_formula_def)

lemma summands_dept:
  "summands dept_formula =
     [''male*C(dept)'', ''perfEval'', ''C(age_bin)'', ''C(edu)'', ''seniority'', ''C(jobTitle)'']"
  by (simp add: formula_eval dept_formula_def)

lemma summands_job:
  "summands job_formula =
     [''male*C(jobTitle)'', ''perfEval'', ''C(age_bin)'', ''C(edu)'', ''seniority'', ''C(dept)'']"
  by (simp add: formula_eval job_formula_def)

lemma columns_model1: "formula_columns model1_formula = [''log_base'', ''male'']"
  by (simp add: formula_eval model1_formula_def)

lemma columns_model2:
  "formula_columns model2_formula = [''log_base'', ''male'', ''perfEval'', ''age_bin'', ''edu'']"
  by (simp add: formula_eval model2_formula_def)

lemma columns_model3:
  "formula_columns model3_formula =
     [''log_base'', ''male'', ''perfEval'', ''age_bin'', ''edu'', ''dept'', ''seniority'',
      ''jobTitle'']"
  by (simp add: formula_eval model3_formula_def)

lemma columns_dept:
  "formula_columns dept_formula =
     [''log_base'', ''male'', ''dept'', ''male'', ''dept'', ''perfEval'', ''age_bin'', ''edu'',
      ''seniority'', ''jobTitle'']"
  by (simp add: formula_eval dept_formula_def)

lemma columns_job:
  "formula_columns job_formula =
     [''log_base'', ''male'', ''jobTitle'', ''male'', ''jobTitle'', ''perfEval'', ''age_bin'',
      ''edu'', ''seniority'', ''dept'']"
  by (simp add: formula_eval job_formula_def)

lemma outcome_all:
  "outcome model1_formula = ''log_base''" "outcome model2_formula = ''log_base''"
  "outcome model3_formula = ''log_base''" "outcome dept_formula = ''log_base''"
  "outcome job_formula = ''log_base''"
  by (simp_all add: formula_eval model1_formula_def model2_formula_def model3_formula_def
      dept_formula_def job_formula_def)

lemma regressions_eq:
  "regressions =
     [(''model1'', model1_formula), (''model2'', model2_formula), (''model3'', model3_formula),
      (''dept_results'', dept_formula), (''job_results'', job_formula)]"
  by (simp add: regressions_def script_def List.map_filter_simps)

lemma strict_subsetI: "A \<subseteq> B \<Longrightarrow> x \<in> B \<Longrightarrow> x \<notin> A \<Longrightarrow> A \<subset> B"
  by blast

text \<open>
  Claim C1. The three base-pay regressions are fitted first, in the order model1, model2,
  model3, and their right-hand sides grow: the regressors of model1 (male only) are a
  strict subset of those of model2 (male, perfEval, age_bin, edu), which are a strict
  subset of those of model3 (adding dept, seniority, jobTitle); so every regressor of an
  earlier model is a regressor of every later one.
\<close>

theorem increasing_controls:
  "take 3 regressions =
     [(''model1'', model1_formula), (''model2'', model2_formula), (''model3'', model3_formula)]
   \<and> regressors model1_formula = [''male'']
   \<and> regressors model2_formula = [''male'', ''perfEval'', ''C(age_bin)'', ''C(edu)'']
   \<and> regressors model3_formula =
       [''male'', ''perfEval'', ''C(age_bin)'', ''C(edu)'', ''C(dept)'', ''seniority'',
        ''C(jobTitle)'']
   \<and> set (regressors model1_formula) \<subset> set (regressors model2_formula)
   \<and> set (regressors model2_formula) \<subset> set (regressors model3_formula)
   \<and> set (regressors model1_formula) \<subset> set (regressors model3_formula)"
proof -
  have a: "set (regressors model1_formula) \<subset> set (regressors model2_formula)"
    unfolding regressors_model1 regressors_model2
    by (rule strict_subsetI [where x = "''perfEval''"]) simp_all
  have b: "set (regressors model2_formula) \<subset> set (regressors model3_formula)"
    unfolding regressors_model2 regressors_model3
    by (rule strict_subsetI [where x = "''seniority''"]) simp_all
  from a b have c: "set (regressors model1_formula) \<subset> set (regressors model3_formula)"
    by (rule psubset_trans)
  have d: "take 3 regressions =
     [(''model1'', model1_formula), (''model2'', model2_formula), (''model3'', model3_formula)]"
    by (simp add: regressions_eq)
  from a b c d regressors_model1 regressors_model2 regressors_model3 show ?thesis
    by (intro conjI)
qed

text \<open>
  Claim C3. The last two regressions are the interaction models: the department model has
  the summand \<^verbatim>\<open>male*C(dept)\<close> and with it the term \<^verbatim>\<open>male:C(dept)\<close>, the job-title model
  has \<^verbatim>\<open>male*C(jobTitle)\<close> and \<^verbatim>\<open>male:C(jobTitle)\<close>; each also lists perfEval, age_bin,
  edu, seniority and the categorical it does not interact, and each contains every
  regressor of model3.
\<close>

theorem interaction_models:
  "drop 3 regressions = [(''dept_results'', dept_formula), (''job_results'', job_formula)]
   \<and> ''male*C(dept)'' \<in> set (summands dept_formula)
   \<and> ''male:C(dept)'' \<in> set (regressors dept_formula)
   \<and> ''male*C(jobTitle)'' \<in> set (summands job_formula)
   \<and> ''male:C(jobTitle)'' \<in> set (regressors job_formula)
   \<and> set [''perfEval'', ''C(age_bin)'', ''C(edu)'', ''seniority'', ''C(jobTitle)'']
        \<subseteq> set (summands dept_formula)
   \<and> set [''perfEval'', ''C(age_bin)'', ''C(edu)'', ''seniority'', ''C(dept)'']
        \<subseteq> set (summands job_formula)
   \<and> set (regressors model3_formula) \<subseteq> set (regressors dept_formula)
   \<and> set (regressors model3_formula) \<subseteq> set (regressors job_formula)"
proof -
  have a: "drop 3 regressions = [(''dept_results'', dept_formula), (''job_results'', job_formula)]"
    by (simp add: regressions_eq)
  have b: "''male*C(dept)'' \<in> set (summands dept_formula)"
    unfolding summands_dept by simp
  have c: "''male:C(dept)'' \<in> set (regressors dept_formula)"
    unfolding regressors_dept by simp
  have d: "''male*C(jobTitle)'' \<in> set (summands job_formula)"
    unfolding summands_job by simp
  have e: "''male:C(jobTitle)'' \<in> set (regressors job_formula)"
    unfolding regressors_job by simp
  have f: "set [''perfEval'', ''C(age_bin)'', ''C(edu)'', ''seniority'', ''C(jobTitle)'']
        \<subseteq> set (summands dept_formula)"
    unfolding summands_dept by simp
  have g: "set [''perfEval'', ''C(age_bin)'', ''C(edu)'', ''seniority'', ''C(dept)'']
        \<subseteq> set (summands job_formula)"
    unfolding summands_job by simp
  have h: "set (regressors model3_formula) \<subseteq> set (regressors dept_formula)"
    unfolding regressors_model3 regressors_dept by simp
  have i: "set (regressors model3_formula) \<subseteq> set (regressors job_formula)"
    unfolding regressors_model3 regressors_job by simp
  from a b c d e f g h i show ?thesis by (intro conjI)
qed

subsection \<open>The cleaned row, column by column\<close>

lemmas clean_eval = clean_row_def raw_row.defs row.defs Let_def

lemma clean_row_fields:
  "age_bin (clean_row fadd r) = age_bin_of (age r)"
  "totalPay (clean_row fadd r) = add_num fadd (basePay r) (bonus r)"
  "log_base (clean_row fadd r) = np_log (value_of (basePay r))"
  "log_total (clean_row fadd r) = np_log (value_of (add_num fadd (basePay r) (bonus r)))"
  "log_bonus (clean_row fadd r) = np_log (value_of (add_num fadd (bonus r) (I64 1)))"
  "male (clean_row fadd r) = male_of (gender r)"
  by (simp_all add: clean_eval)


subsection \<open>The script, evaluated\<close>

lemma stages_script:
  "map stage_of script =
     [Setup, Setup, Setup, Setup, Setup, Setup, Load,
      Transform, Transform, Transform, Transform, Transform, Transform, Transform,
      Transform, Transform, Transform, Transform, Other,
      Transform, Transform, Transform, Transform,
      Overall, Export,
      Grouped, Other, Grouped, Other, Grouped, Other, Grouped, Other, Grouped, Other,
      Grouped, Other,
      Regression, Other, Regression, Other, Regression, Other,
      Other, Other, Other, Other, Other, Other, Other, Other, Other, Other,
      Export, Other, Regression, Other, Other, Export, Export, Other,
      Regression, Other, Other, Export, Export]"
  by (simp add: script_def)

lemma length_script: "length script = 66"
  by (simp add: script_def)

lemma fits_script:
  "filter (\<lambda>s. stage_of s = Regression) script =
     [OlsFit ''model1'' model1_formula, OlsFit ''model2'' model2_formula,
      OlsFit ''model3'' model3_formula, OlsFit ''dept_results'' dept_formula,
      OlsFit ''job_results'' job_formula]"
  by (simp add: script_def)

lemma no_log_total:
  "list_all (\<lambda>(n, f). ''log_total'' \<notin> set (formula_columns f)
                      \<and> ''log_bonus'' \<notin> set (formula_columns f)) regressions"
  unfolding regressions_eq
  by (simp add: columns_model1 columns_model2 columns_model3 columns_dept columns_job)

text \<open>
  Claim C2. The regressions of the script are exactly its five ordinary-least-squares fits
  (the three control models and the two interaction models), and the outcome of each
  formula is \<^verbatim>\<open>log_base\<close>, the logarithm of base pay: \<open>ln p\<close> for a base pay cell that
  holds a positive number \<open>p\<close>, integer or float. No formula names \<^verbatim>\<open>log_total\<close> or
  \<^verbatim>\<open>log_bonus\<close>, as outcome or otherwise.
\<close>

theorem outcome_is_log_base:
  "filter (\<lambda>s. stage_of s = Regression) script = map (\<lambda>(n, f). OlsFit n f) regressions
   \<and> map fst regressions = [''model1'', ''model2'', ''model3'', ''dept_results'', ''job_results'']
   \<and> map (\<lambda>(n, f). outcome f) regressions =
       [''log_base'', ''log_base'', ''log_base'', ''log_base'', ''log_base'']
   \<and> log_base (clean_row fadd r) = np_log (value_of (basePay r))
   \<and> (value_of (basePay r) = Some p \<and> 0 < p \<longrightarrow> log_base (clean_row fadd r) = Fin (ln p))
   \<and> list_all (\<lambda>(n, f). ''log_total'' \<notin> set (formula_columns f)
                        \<and> ''log_bonus'' \<notin> set (formula_columns f)) regressions"
proof -
  have a: "filter (\<lambda>s. stage_of s = Regression) script = map (\<lambda>(n, f). OlsFit n f) regressions"
    unfolding fits_script regressions_eq by simp
  have b: "map fst regressions = [''model1'', ''model2'', ''model3'', ''dept_results'', ''job_results'']"
    unfolding regressions_eq by simp
  have c: "map (\<lambda>(n, f). outcome f) regressions =
       [''log_base'', ''log_base'', ''log_base'', ''log_base'', ''log_base'']"
    unfolding regressions_eq by (simp add: outcome_all)
  have d: "log_base (clean_row fadd r) = np_log (value_of (basePay r))"
    by (rule clean_row_fields)
  have e: "value_of (basePay r) = Some p \<and> 0 < p \<longrightarrow> log_base (clean_row fadd r) = Fin (ln p)"
    by (simp add: clean_row_fields np_log_def)
  from a b c d e no_log_total show ?thesis by (intro conjI)
qed

theorem outcome_is_log_base_witness:
  "value_of (basePay (employee (Some ''Male'') (Some 30) (I64 1) (I64 0))) = Some 1
   \<and> (0::real) < 1
   \<and> log_base (clean_row (+) (employee (Some ''Male'') (Some 30) (I64 1) (I64 0))) = Fin 0
   \<and> value_of (basePay (employee (Some ''Male'') (Some 30) (F64 1) NA)) = Some 1
   \<and> log_base (clean_row (+) (employee (Some ''Male'') (Some 30) (F64 1) NA)) = Fin 0"
  using outcome_is_log_base [of "(+)" "employee (Some ''Male'') (Some 30) (I64 1) (I64 0)" 1]
    outcome_is_log_base [of "(+)" "employee (Some ''Male'') (Some 30) (F64 1) NA" 1]
  by (simp add: employee_def np_log_def)

subsection \<open>The order of the stages\<close>

lemma order_from_split:
  assumes "xs = A @ B" "b \<notin> set A" "a \<notin> set B"
    and "i < length xs" "j < length xs" "xs ! i = a" "xs ! j = b"
  shows "i < j"
proof -
  have "i < length A"
  proof (rule ccontr)
    assume "\<not> i < length A"
    then have "xs ! i = B ! (i - length A)" "i - length A < length B"
      using assms(1,4) by (auto simp: nth_append)
    then have "a \<in> set B" using assms(6) by (metis nth_mem)
    with assms(3) show False by simp
  qed
  moreover have "length A \<le> j"
  proof (rule ccontr)
    assume "\<not> length A \<le> j"
    then have "xs ! j = A ! j" "j < length A"
      using assms(1) by (auto simp: nth_append)
    then have "b \<in> set A" using assms(7) by (metis nth_mem)
    with assms(2) show False by simp
  qed
  ultimately show ?thesis by simp
qed

lemma stage_order:
  assumes "map stage_of script = A @ B" "b \<notin> set A" "a \<notin> set B"
    and "i < length script" "j < length script"
    and "stage_of (script ! i) = a" "stage_of (script ! j) = b"
  shows "i < j"
  using order_from_split [OF assms(1,2,3), of i j] assms(4-7) by simp

lemma transform_before_grouped:
  assumes "i < length script" "j < length script"
    and "stage_of (script ! i) = Transform" "stage_of (script ! j) = Grouped"
  shows "i < j"
proof -
  have "map stage_of script = take 25 (map stage_of script) @ drop 25 (map stage_of script)"
    by simp
  moreover have "Grouped \<notin> set (take 25 (map stage_of script))"
    unfolding stages_script by simp
  moreover have "Transform \<notin> set (drop 25 (map stage_of script))"
    unfolding stages_script by simp
  ultimately show ?thesis using assms by (rule stage_order)
qed

lemma grouped_before_regression:
  assumes "i < length script" "j < length script"
    and "stage_of (script ! i) = Grouped" "stage_of (script ! j) = Regression"
  shows "i < j"
proof -
  have "map stage_of script = take 37 (map stage_of script) @ drop 37 (map stage_of script)"
    by simp
  moreover have "Regression \<notin> set (take 37 (map stage_of script))"
    unfolding stages_script by simp
  moreover have "Grouped \<notin> set (drop 37 (map stage_of script))"
    unfolding stages_script by simp
  ultimately show ?thesis using assms by (rule stage_order)
qed

lemma summary_before_grouped:
  assumes "i < length script" "j < length script"
    and "script ! i = WriteFile ''summary.html''" "stage_of (script ! j) = Grouped"
  shows "i < j"
proof -
  let ?g = "\<lambda>s. if s = WriteFile ''summary.html'' then (0::nat)
                else if stage_of s = Grouped then 1 else 2"
  let ?xs = "map ?g script"
  have "?xs = take 25 ?xs @ drop 25 ?xs" by simp
  moreover have "1 \<notin> set (take 25 ?xs)" by (simp add: script_def)
  moreover have "0 \<notin> set (drop 25 ?xs)" by (simp add: script_def)
  moreover have "i < length ?xs" "j < length ?xs" using assms(1,2) by simp_all
  moreover have "?xs ! i = 0" using assms(1,3) by simp
  moreover have "?xs ! j = 1" using assms(2,4) by auto
  ultimately show ?thesis by (rule order_from_split)
qed

lemma grouped_fits_exports:
  "filter (\<lambda>s. stage_of s = Grouped \<or> stage_of s = Regression \<or> stage_of s = Export) script =
     [WriteFile ''summary.html'',
      GroupAgg ''summary_base'' [''gender''], GroupAgg ''summary_total'' [''gender''],
      GroupAgg ''summary_bonus'' [''gender''], GroupAgg ''summary_perf'' [''gender''],
      GroupAgg ''summary_dept'' [''dept'', ''gender''],
      GroupAgg ''summary_job'' [''jobTitle'', ''gender''],
      OlsFit ''model1'' model1_formula, OlsFit ''model2'' model2_formula,
      OlsFit ''model3'' model3_formula,
      WithOpen ''results.html'' [FileWrite ''html_content''],
      OlsFit ''dept_results'' dept_formula,
      WriteFile ''dept_clean.csv'',
      WithOpen ''dept.html'' [FileWrite ''dept_results.summary().as_html()''],
      OlsFit ''job_results'' job_formula,
      WriteFile ''job_clean.csv'',
      WithOpen ''job.html'' [FileWrite ''job_results.summary().as_html()'']]"
  by (simp add: script_def)

lemma nth_stage: "i < length script \<Longrightarrow> stage_of (script ! i) = map stage_of script ! i"
  by simp

text \<open>
  Claim C5, as stated, fails: a report export runs before a regression call. The statement
  at position 24 writes \<^verbatim>\<open>summary.html\<close>; the first regression, model1, is at position 37.
\<close>

theorem export_before_regression:
  "\<not> (\<forall>i j. i < length script \<and> j < length script
          \<and> stage_of (script ! i) = Regression \<and> stage_of (script ! j) = Export
        \<longrightarrow> i < j)"
proof
  assume h: "\<forall>i j. i < length script \<and> j < length script
          \<and> stage_of (script ! i) = Regression \<and> stage_of (script ! j) = Export
        \<longrightarrow> i < j"
  have a: "stage_of (script ! 37) = Regression"
    by (simp add: nth_stage length_script stages_script)
  have b: "stage_of (script ! 24) = Export"
    by (simp add: nth_stage length_script stages_script)
  have c: "(37::nat) < length script" "(24::nat) < length script"
    by (simp_all add: length_script)
  from h a b c have "(37::nat) < 24" by blast
  then show False by simp
qed

text \<open>
  Claim C5, amended. Every data transformation comes before every grouped aggregation, and
  every grouped aggregation before every regression call. Regression calls and report
  exports interleave: \<^verbatim>\<open>summary.html\<close> is written first, before every grouped aggregation;
  \<^verbatim>\<open>results.html\<close> after model1 to model3 and before the two interaction regressions;
  \<^verbatim>\<open>dept_clean.csv\<close> and \<^verbatim>\<open>dept.html\<close> after the department regression and before the
  job-title regression; \<^verbatim>\<open>job_clean.csv\<close> and \<^verbatim>\<open>job.html\<close> last. The grouped aggregations,
  regression calls and exports of the script are, in the order they run, the list below.
\<close>

theorem pipeline_order:
  "(\<forall>i j. i < length script \<and> j < length script
        \<and> stage_of (script ! i) = Transform \<and> stage_of (script ! j) = Grouped \<longrightarrow> i < j)
   \<and> (\<forall>i j. i < length script \<and> j < length script
        \<and> stage_of (script ! i) = Grouped \<and> stage_of (script ! j) = Regression \<longrightarrow> i < j)
   \<and> (\<forall>i j. i < length script \<and> j < length script
        \<and> script ! i = WriteFile ''summary.html'' \<and> stage_of (script ! j) = Grouped
        \<longrightarrow> i < j)
   \<and> filter (\<lambda>s. stage_of s = Grouped \<or> stage_of s = Regression \<or> stage_of s = Export) script =
       [WriteFile ''summary.html'',
        GroupAgg ''summary_base'' [''gender''], GroupAgg ''summary_total'' [''gender''],
        GroupAgg ''summary_bonus'' [''gender''], GroupAgg ''summary_perf'' [''gender''],
        GroupAgg ''summary_dept'' [''dept'', ''gender''],
        GroupAgg ''summary_job'' [''jobTitle'', ''gender''],
        OlsFit ''model1'' model1_formula, OlsFit ''model2'' model2_formula,
        OlsFit ''model3'' model3_formula,
        WithOpen ''results.html'' [FileWrite ''html_content''],
        OlsFit ''dept_results'' dept_formula,
        WriteFile ''dept_clean.csv'',
        WithOpen ''dept.html'' [FileWrite ''dept_results.summary().as_html()''],
        OlsFit ''job_results'' job_formula,
        WriteFile ''job_clean.csv'',
        WithOpen ''job.html'' [FileWrite ''job_results.summary().as_html()'']]"
  using transform_before_grouped grouped_before_regression summary_before_grouped
    grouped_fits_exports
  by blast

lemma nth24_script: "script ! 24 = WriteFile ''summary.html''"
  by (simp add: script_def)

theorem pipeline_order_witness:
  "(7::nat) < length script \<and> 25 < length script
   \<and> stage_of (script ! 7) = Transform \<and> stage_of (script ! 25) = Grouped
   \<and> stage_of (script ! 35) = Grouped \<and> stage_of (script ! 37) = Regression
   \<and> script ! 24 = WriteFile ''summary.html''
   \<and> (7::nat) < 25 \<and> (35::nat) < 37 \<and> (24::nat) < 25"
proof -
  have a: "stage_of (script ! 7) = Transform" "stage_of (script ! 25) = Grouped"
    "stage_of (script ! 35) = Grouped" "stage_of (script ! 37) = Regression"
    by (simp_all add: nth_stage length_script stages_script)
  have b: "(7::nat) < length script" "(25::nat) < length script"
    "(35::nat) < length script" "(37::nat) < length script" "(24::nat) < length script"
    by (simp_all add: length_script)
  note c = nth24_script
  from pipeline_order a b c have "(7::nat) < 25" "(35::nat) < 37" "(24::nat) < 25" by blast+
  with a b c show ?thesis by simp
qed

subsection \<open>Running the script\<close>

lemma succeeds_Stmt: "simple L x s = Inr s1 \<Longrightarrow> succeeds L (Stmt x, s)"
  by (simp add: succeeds_def)

lemma succeeds_Open: "open_file L f s = Inr s1 \<Longrightarrow> succeeds L (Open f, s)"
  by (simp add: succeeds_def)

lemma succeeds_Close: "close_file L f s = Inr s1 \<Longrightarrow> succeeds L (Close f, s)"
  by (simp add: succeeds_def)

lemma final_exn_append: "final_exn L e (a @ b) = final_exn L (final_exn L e a) b"
  by (induction a arbitrary: e) (auto split: sum.splits)

lemma final_exn_calm: "list_all (succeeds L) post \<Longrightarrow> final_exn L e post = e"
  by (induction post) (auto simp: succeeds_def split: sum.splits)

lemma exec_simple:
  "is_simple x \<Longrightarrow>
   exec L (x # rest) s =
     (case simple L x s of
        Inl e \<Rightarrow> ([(Stmt x, s)], Raised e s)
      | Inr s1 \<Rightarrow> (case exec L rest s1 of (lg, r) \<Rightarrow> ((Stmt x, s) # lg, r)))"
  by (cases x) (auto split: sum.splits)

lemma prims_simple: "is_simple x \<Longrightarrow> prims (x # rest) = Stmt x # prims rest"
  by (cases x) simp_all

lemma exec_induct [case_names Nil With Try Simple]:
  assumes "\<And>L s. P L [] s"
    and "\<And>L f body rest s.
          (\<And>b. open_file L f s = Inr b \<Longrightarrow> P L body b) \<Longrightarrow>
          (\<And>b lg s2 s3. open_file L f s = Inr b \<Longrightarrow> exec L body b = (lg, Finished s2) \<Longrightarrow>
             close_file L f s2 = Inr s3 \<Longrightarrow> P L rest s3) \<Longrightarrow>
          P L (WithOpen f body # rest) s"
    and "\<And>L body handler rest s. P L (TryExcept body handler # rest) s"
    and "\<And>L x rest s. is_simple x \<Longrightarrow> (\<And>b. simple L x s = Inr b \<Longrightarrow> P L rest b) \<Longrightarrow>
          P L (x # rest) s"
  shows "P L xs s"
proof (induction L xs s rule: exec.induct)
  case (1 L s)
  show ?case by (rule assms(1))
next
  case (2 L f body rest s)
  show ?case
  proof (rule assms(2))
    fix b assume "open_file L f s = Inr b"
    then show "P L body b" by (rule "2.IH"(1))
  next
    fix b lg s2 s3
    assume "open_file L f s = Inr b" "exec L body b = (lg, Finished s2)"
      "close_file L f s2 = Inr s3"
    then show "P L rest s3"
      using "2.IH"(2) [of b lg "Finished s2" s2 s3] by simp
  qed
next
  case (3 L body handler rest s)
  show ?case by (rule assms(3))
qed (rule assms(4), simp, blast)+

lemma log_ok_FinishedI:
  "list_all (succeeds L) lg \<Longrightarrow> map fst lg = prims xs \<Longrightarrow> log_ok L xs lg (Finished s')"
  by (simp add: log_ok_def)

lemma log_ok_FinishedD:
  "log_ok L xs lg (Finished s') \<Longrightarrow> list_all (succeeds L) lg \<and> map fst lg = prims xs"
  by (simp add: log_ok_def)

lemma log_ok_RaisedI:
  assumes "list_all (succeeds L) pre"
    and "prim_sem L (fst x) (snd x) = Inl e0"
    and "prims xs = map fst pre @ fst x # later"
    and "list_all (\<lambda>y. is_close (fst y)) post" "e = final_exn L e0 post"
  shows "log_ok L xs (pre @ x # post) (Raised e s')"
  unfolding log_ok_def result.case using assms by blast

lemma log_ok_RaisedE:
  assumes "log_ok L xs lg (Raised e s')"
  obtains pre x post e0 later where
    "lg = pre @ x # post" "list_all (succeeds L) pre"
    "prim_sem L (fst x) (snd x) = Inl e0"
    "prims xs = map fst pre @ fst x # later"
    "list_all (\<lambda>y. is_close (fst y)) post" "e = final_exn L e0 post"
  using assms unfolding log_ok_def by auto

lemma exec_handler_free:
  "list_all handler_free xs \<Longrightarrow> exec L xs s = (lg, r) \<Longrightarrow> log_ok L xs lg r"
proof (induction L xs s arbitrary: lg r rule: exec_induct)
  case (Nil L s)
  then show ?case by (auto simp: log_ok_def)
next
  case (With L f body rest s)
  from With.prems have hb: "list_all handler_free body" and hr: "list_all handler_free rest"
    by simp_all
  show ?case
  proof (cases "open_file L f s")
    case (Inl e)
    with With.prems have "lg = [] @ (Open f, s) # []" "r = Raised e s" by simp_all
    moreover have "log_ok L (WithOpen f body # rest) ([] @ (Open f, s) # []) (Raised e s)"
      by (rule log_ok_RaisedI [of _ _ _ e _ "prims body @ Close f # prims rest"])
        (simp_all add: Inl)
    ultimately show ?thesis by simp
  next
    case (Inr s1)
    have o: "succeeds L (Open f, s)" using Inr by (rule succeeds_Open)
    obtain lg1 r1 where b: "exec L body s1 = (lg1, r1)" by (cases "exec L body s1")
    note ihb = With.IH(1) [OF Inr hb b]
    show ?thesis
    proof (cases r1)
      case (Raised e1 s2)
      from ihb Raised obtain pre1 x1 post1 e01 more1 where
        d: "lg1 = pre1 @ x1 # post1" "list_all (succeeds L) pre1"
          "prim_sem L (fst x1) (snd x1) = Inl e01"
          "prims body = map fst pre1 @ fst x1 # more1"
          "list_all (\<lambda>y. is_close (fst y)) post1" "e1 = final_exn L e01 post1"
        by (auto elim: log_ok_RaisedE)
      let ?lg = "((Open f, s) # pre1) @ x1 # (post1 @ [(Close f, s2)])"
      have lg: "lg = ?lg"
        using With.prems(2) Inr b Raised d(1) by (simp split: sum.splits)
      show ?thesis
      proof (cases "close_file L f s2")
        case (Inl e')
        with With.prems(2) Inr b Raised have r: "r = Raised e' s2" by simp
        have "log_ok L (WithOpen f body # rest) ?lg (Raised e' s2)"
          by (rule log_ok_RaisedI [of _ _ _ e01 _ "more1 @ Close f # prims rest"])
            (simp_all add: d o Inl final_exn_append)
        with lg r show ?thesis by simp
      next
        case (Inr s3)
        with With.prems(2) \<open>open_file L f s = Inr s1\<close> b Raised have r: "r = Raised e1 s3"
          by simp
        have "log_ok L (WithOpen f body # rest) ?lg (Raised e1 s3)"
          by (rule log_ok_RaisedI [of _ _ _ e01 _ "more1 @ Close f # prims rest"])
            (simp_all add: d o Inr final_exn_append)
        with lg r show ?thesis by simp
      qed
    next
      case (Finished s2)
      from ihb Finished have f1: "list_all (succeeds L) lg1" "map fst lg1 = prims body"
        by (simp_all add: log_ok_def)
      from b Finished have b': "exec L body s1 = (lg1, Finished s2)" by simp
      show ?thesis
      proof (cases "close_file L f s2")
        case (Inl e')
        with With.prems(2) Inr b' have e: "lg = ((Open f, s) # lg1) @ (Close f, s2) # []"
          "r = Raised e' s2"
          by simp_all
        have "log_ok L (WithOpen f body # rest) (((Open f, s) # lg1) @ (Close f, s2) # [])
            (Raised e' s2)"
          by (rule log_ok_RaisedI [of _ _ _ e' _ "prims rest"])
            (simp_all add: f1 o Inl)
        with e show ?thesis by simp
      next
        case (Inr s3)
        have c: "succeeds L (Close f, s2)" using Inr by (rule succeeds_Close)
        obtain lg2 r2 where x: "exec L rest s3 = (lg2, r2)" by (cases "exec L rest s3")
        note ihr = With.IH(2) [OF \<open>open_file L f s = Inr s1\<close> b' Inr hr x]
        from With.prems(2) \<open>open_file L f s = Inr s1\<close> b' Inr x
        have e: "lg = (Open f, s) # lg1 @ (Close f, s2) # lg2" "r = r2" by simp_all
        show ?thesis
        proof (cases r2)
          case (Raised e2 s4)
          from ihr Raised obtain pre2 x2 post2 e02 more2 where
            d: "lg2 = pre2 @ x2 # post2" "list_all (succeeds L) pre2"
              "prim_sem L (fst x2) (snd x2) = Inl e02"
              "prims rest = map fst pre2 @ fst x2 # more2"
              "list_all (\<lambda>y. is_close (fst y)) post2" "e2 = final_exn L e02 post2"
            by (auto elim: log_ok_RaisedE)
          let ?pre = "(Open f, s) # lg1 @ (Close f, s2) # pre2"
          have "log_ok L (WithOpen f body # rest) (?pre @ x2 # post2) (Raised e2 s4)"
            by (rule log_ok_RaisedI [of _ _ _ e02 _ more2])
              (simp_all add: d f1 o c)
          with e d(1) Raised show ?thesis by simp
        next
          case (Finished s4)
          with ihr have "list_all (succeeds L) lg2" "map fst lg2 = prims rest"
            by (simp_all add: log_ok_def)
          with e f1 o c Finished show ?thesis by (simp add: log_ok_def)
        qed
      qed
    qed
  qed
next
  case (Try L body handler rest s)
  then show ?case by simp
next
  case (Simple L x rest s)
  from Simple.prems have hr: "list_all handler_free rest" by simp
  show ?case
  proof (cases "simple L x s")
    case (Inl e)
    with Simple.prems(2) Simple.hyps have "lg = [] @ (Stmt x, s) # []" "r = Raised e s"
      by (simp_all add: exec_simple)
    moreover have "log_ok L (x # rest) ([] @ (Stmt x, s) # []) (Raised e s)"
      by (rule log_ok_RaisedI [of _ _ _ e _ "prims rest"])
        (simp_all add: Inl prims_simple Simple.hyps)
    ultimately show ?thesis by simp
  next
    case (Inr s1)
    have o: "succeeds L (Stmt x, s)" using Inr by (rule succeeds_Stmt)
    obtain lg1 r1 where b: "exec L rest s1 = (lg1, r1)" by (cases "exec L rest s1")
    note ih = Simple.IH [OF Inr hr b]
    from Simple.prems(2) Simple.hyps Inr b have e: "lg = (Stmt x, s) # lg1" "r = r1"
      by (simp_all add: exec_simple)
    show ?thesis
    proof (cases r1)
      case (Raised e1 s2)
      from ih Raised obtain pre1 x1 post1 e01 more1 where
        d: "lg1 = pre1 @ x1 # post1" "list_all (succeeds L) pre1"
          "prim_sem L (fst x1) (snd x1) = Inl e01"
          "prims rest = map fst pre1 @ fst x1 # more1"
          "list_all (\<lambda>y. is_close (fst y)) post1" "e1 = final_exn L e01 post1"
        by (auto elim: log_ok_RaisedE)
      have "log_ok L (x # rest) (((Stmt x, s) # pre1) @ x1 # post1) (Raised e1 s2)"
        by (rule log_ok_RaisedI [of _ _ _ e01 _ more1])
          (simp_all add: d o prims_simple Simple.hyps)
      with e d(1) Raised show ?thesis by simp
    next
      case (Finished s2)
      with ih have "list_all (succeeds L) lg1" "map fst lg1 = prims rest"
        by (simp_all add: log_ok_def)
      with e o Finished Simple.hyps show ?thesis by (simp add: log_ok_def prims_simple)
    qed
  qed
qed

lemma script_handler_free: "list_all handler_free script"
  by (simp add: script_def)

lemma double_fault_run:
  "snd (exec double_fault script 0) = Raised ''close failed'' 54
   \<and> (Stmt (FileWrite ''html_content''), 54) \<in> set (fst (exec double_fault script 0))
   \<and> prim_sem double_fault (Stmt (FileWrite ''html_content'')) 54 = Inl ''write failed''"
  by (simp add: script_def double_fault_def)

text \<open>
  Claim C6, as stated, fails where it says that any exception propagates unchanged: when
  writing into the file that the first \<^verbatim>\<open>with\<close> block has opened raises and the closing of
  that file raises too, the run ends with the exception of the closing, not with the one
  the writing raised.
\<close>

theorem closing_replaces_exception:
  "\<not> (\<forall>(L :: (string, nat) lib) s lg r y e.
         exec L script s = (lg, r) \<and> y \<in> set lg \<and> prim_sem L (fst y) (snd y) = Inl e
         \<longrightarrow> (\<exists>s'. r = Raised e s'))"
proof
  let ?y = "(Stmt (FileWrite ''html_content''), 54 :: nat)"
  assume h: "\<forall>(L :: (string, nat) lib) s lg r y e.
         exec L script s = (lg, r) \<and> y \<in> set lg \<and> prim_sem L (fst y) (snd y) = Inl e
         \<longrightarrow> (\<exists>s'. r = Raised e s')"
  have a: "exec double_fault script 0
      = (fst (exec double_fault script 0), snd (exec double_fault script 0))"
    by simp
  have b: "?y \<in> set (fst (exec double_fault script 0))"
    and c: "prim_sem double_fault (fst ?y) (snd ?y) = Inl ''write failed''"
    using double_fault_run by simp_all
  note h' = h [rule_format, of double_fault 0 "fst (exec double_fault script 0)"
      "snd (exec double_fault script 0)" ?y "''write failed''"]
  from a b c have "\<exists>s'. snd (exec double_fault script 0) = Raised ''write failed'' s'"
    by (intro h' conjI)
  then show False using double_fault_run by simp
qed

text \<open>
  Claim C6, amended. No statement of the script is a \<^verbatim>\<open>try\<close> statement or has one inside.
  So, whatever the library calls mean: a run that finishes has started every operation of
  the script, in the order of the text, and none of them raised; a run that ends with an
  exception has started operations of the script in the order of the text, all succeeding,
  up to a first one that raised, and after it nothing but closings of files that \<^verbatim>\<open>with\<close>
  blocks had opened; it ends with the exception that first operation raised, unchanged,
  unless one of those closings raised in turn, and then with the exception of the last
  closing that raised. A run in which an operation raises does not finish.
\<close>

theorem exceptions_propagate:
  "list_all handler_free script
   \<and> (exec L script s = (lg, r) \<longrightarrow>
        (\<forall>s'. r = Finished s' \<longrightarrow> list_all (succeeds L) lg \<and> map fst lg = prims script)
        \<and> (\<forall>e s'. r = Raised e s' \<longrightarrow>
              (\<exists>pre x post e0 later.
                 lg = pre @ x # post \<and> list_all (succeeds L) pre
                 \<and> prim_sem L (fst x) (snd x) = Inl e0
                 \<and> prims script = map fst pre @ fst x # later
                 \<and> list_all (\<lambda>y. is_close (fst y)) post
                 \<and> e = final_exn L e0 post
                 \<and> (list_all (succeeds L) post \<longrightarrow> e = e0)))
        \<and> (list_all (succeeds L) lg \<longrightarrow> (\<exists>s'. r = Finished s')))"
proof (intro conjI impI)
  show "list_all handler_free script" by (rule script_handler_free)
next
  assume "exec L script s = (lg, r)"
  with script_handler_free have ok: "log_ok L script lg r" by (rule exec_handler_free)
  show "\<forall>s'. r = Finished s' \<longrightarrow> list_all (succeeds L) lg \<and> map fst lg = prims script"
  proof (intro allI impI)
    fix s' assume "r = Finished s'"
    with ok show "list_all (succeeds L) lg \<and> map fst lg = prims script"
      by (simp add: log_ok_def)
  qed
  show "\<forall>e s'. r = Raised e s' \<longrightarrow>
              (\<exists>pre x post e0 later.
                 lg = pre @ x # post \<and> list_all (succeeds L) pre
                 \<and> prim_sem L (fst x) (snd x) = Inl e0
                 \<and> prims script = map fst pre @ fst x # later
                 \<and> list_all (\<lambda>y. is_close (fst y)) post
                 \<and> e = final_exn L e0 post
                 \<and> (list_all (succeeds L) post \<longrightarrow> e = e0))"
  proof (intro allI impI)
    fix e s' assume "r = Raised e s'"
    with ok have "log_ok L script lg (Raised e s')" by simp
    then obtain pre x post e0 later where
      d: "lg = pre @ x # post" "list_all (succeeds L) pre"
        "prim_sem L (fst x) (snd x) = Inl e0"
        "prims script = map fst pre @ fst x # later"
        "list_all (\<lambda>y. is_close (fst y)) post" "e = final_exn L e0 post"
      by (rule log_ok_RaisedE)
    from d(6) have "list_all (succeeds L) post \<longrightarrow> e = e0"
      by (simp add: final_exn_calm)
    with d show "\<exists>pre x post e0 later.
                 lg = pre @ x # post \<and> list_all (succeeds L) pre
                 \<and> prim_sem L (fst x) (snd x) = Inl e0
                 \<and> prims script = map fst pre @ fst x # later
                 \<and> list_all (\<lambda>y. is_close (fst y)) post
                 \<and> e = final_exn L e0 post
                 \<and> (list_all (succeeds L) post \<longrightarrow> e = e0)"
      by blast
  qed
  show "\<exists>s'. r = Finished s'" if calm: "list_all (succeeds L) lg"
  proof (cases r)
    case (Finished s')
    then show ?thesis by simp
  next
    case (Raised e s')
    with ok have "log_ok L script lg (Raised e s')" by simp
    then obtain pre x post e0 later where
      d: "lg = pre @ x # post" "prim_sem L (fst x) (snd x) = Inl e0"
      by (rule log_ok_RaisedE)
    from calm d(1) have "succeeds L x" by simp
    with d(2) show ?thesis by (simp add: succeeds_def)
  qed
qed

lemma failing_load_run:
  "exec failing_load script 0 =
     ([(Stmt (Import ''pandas''), 0), (Stmt (Import ''numpy''), 1),
       (Stmt (Import ''statsmodels.api''), 2), (Stmt (Import ''statsmodels.formula.api''), 3),
       (Stmt (Import ''statsmodels.iolib.summary2''), 4), (Stmt SetOption, 5),
       (Stmt ReadCsv, 6)],
      Raised ''HTTPError'' 6)"
  by (simp add: script_def failing_load_def)

theorem exceptions_propagate_witness:
  "exec failing_load script 0 =
     ([(Stmt (Import ''pandas''), 0), (Stmt (Import ''numpy''), 1),
       (Stmt (Import ''statsmodels.api''), 2), (Stmt (Import ''statsmodels.formula.api''), 3),
       (Stmt (Import ''statsmodels.iolib.summary2''), 4), (Stmt SetOption, 5),
       (Stmt ReadCsv, 6)],
      Raised ''HTTPError'' 6)
   \<and> (\<exists>pre x post e0 later.
         [(Stmt (Import ''pandas''), 0), (Stmt (Import ''numpy''), 1),
          (Stmt (Import ''statsmodels.api''), 2), (Stmt (Import ''statsmodels.formula.api''), 3),
          (Stmt (Import ''statsmodels.iolib.summary2''), 4), (Stmt SetOption, 5),
          (Stmt ReadCsv, 6 :: nat)] = pre @ x # post
         \<and> list_all (succeeds failing_load) pre
         \<and> prim_sem failing_load (fst x) (snd x) = Inl e0
         \<and> prims script = map fst pre @ fst x # later
         \<and> list_all (\<lambda>y. is_close (fst y)) post
         \<and> ''HTTPError'' = final_exn failing_load e0 post
         \<and> (list_all (succeeds failing_load) post \<longrightarrow> ''HTTPError'' = e0))
   \<and> \<not> list_all (succeeds failing_load)
         [(Stmt (Import ''pandas''), 0), (Stmt (Import ''numpy''), 1),
          (Stmt (Import ''statsmodels.api''), 2), (Stmt (Import ''statsmodels.formula.api''), 3),
          (Stmt (Import ''statsmodels.iolib.summary2''), 4), (Stmt SetOption, 5),
          (Stmt ReadCsv, 6)]"
proof -
  let ?lg = "[(Stmt (Import ''pandas''), 0::nat), (Stmt (Import ''numpy''), 1),
       (Stmt (Import ''statsmodels.api''), 2), (Stmt (Import ''statsmodels.formula.api''), 3),
       (Stmt (Import ''statsmodels.iolib.summary2''), 4), (Stmt SetOption, 5),
       (Stmt ReadCsv, 6)]"
  have a: "exec failing_load script 0 = (?lg, Raised ''HTTPError'' 6)"
    by (rule failing_load_run)
  note t = exceptions_propagate [of failing_load 0 ?lg "Raised ''HTTPError'' 6",
      THEN conjunct2, THEN mp, OF a]
  note b = t [THEN conjunct2, THEN conjunct1, rule_format, OF refl]
  note c = t [THEN conjunct2, THEN conjunct2]
  have d: "\<not> list_all (succeeds failing_load) ?lg"
  proof
    assume "list_all (succeeds failing_load) ?lg"
    with c have "\<exists>s'. Raised ''HTTPError'' (6::nat) = Finished s'" by (rule mp)
    then show False by simp
  qed
  from a b d show ?thesis by (intro conjI)
qed

subsection \<open>Total pay and the age bins\<close>

lemma clean_nth: "i < length df \<Longrightarrow> clean fadd df ! i = clean_row fadd (df ! i)"
  by (simp add: clean_def)

lemma sint_add_exact:
  fixes a b :: "64 word"
  assumes "- (2 ^ 63) \<le> sint a + sint b" "sint a + sint b < 2 ^ 63"
  shows "sint (a + b) = sint a + sint b"
  using assms by (simp add: sint_word_ariths signed_take_bit_int_eq_self)

lemma add_num_exact:
  assumes "- (2 ^ 63) \<le> sint a + sint b" "sint a + sint b < 2 ^ 63"
  shows "value_of (add_num fadd (I64 a) (I64 b)) = Some (real_of_int (sint a) + real_of_int (sint b))"
  using sint_add_exact [OF assms] by simp

lemma add_num_missing: "p = NA \<or> b = NA \<Longrightarrow> add_num fadd p b = NA"
  by (cases p; cases b) simp_all

lemma np_log_positive: "0 < t \<Longrightarrow> np_log (Some t) = Fin (ln t)"
  by (simp add: np_log_def)

text \<open>
  Claim C7, as stated, fails where it says that total pay equals base pay plus bonus
  exactly: with a base pay of 9223372036854775807 and a bonus of 1, both integers, the sum
  wraps around to -9223372036854775808.
\<close>

theorem int64_sum_wraps:
  "\<forall>fadd. \<not> (\<forall>r p b. value_of (basePay r) = Some p \<and> value_of (bonus r) = Some b \<longrightarrow>
                value_of (totalPay (clean_row fadd r)) = Some (p + b))"
proof (intro allI notI)
  fix fadd :: "real \<Rightarrow> real \<Rightarrow> real"
  let ?r = "employee (Some ''Female'') (Some 40) (I64 9223372036854775807) (I64 1)"
  assume h: "\<forall>r p b. value_of (basePay r) = Some p \<and> value_of (bonus r) = Some b \<longrightarrow>
                value_of (totalPay (clean_row fadd r)) = Some (p + b)"
  have "value_of (basePay ?r) = Some 9223372036854775807 \<and> value_of (bonus ?r) = Some 1"
    by (simp add: employee_def)
  with h have "value_of (totalPay (clean_row fadd ?r)) = Some (9223372036854775807 + 1)"
    by blast
  then show False
    by (simp add: clean_row_fields employee_def)
qed

text \<open>
  Claim C7, amended. Cleaning keeps the rows, and on every row total pay is the sum of the
  base pay and bonus cells in their number type: of two 64-bit integers the 64-bit sum,
  which is base pay plus bonus exactly when that lies in the 64-bit range; the float sum
  of the two numbers when a float is involved; missing when either cell is missing.
  \<^verbatim>\<open>log_total\<close> is the logarithm of total pay as computed: \<open>ln t\<close> when total pay is a
  positive number \<open>t\<close>.
\<close>

theorem total_pay_is_sum:
  "length (clean fadd df) = length df
   \<and> (\<forall>i < length df.
        totalPay (clean fadd df ! i) = add_num fadd (basePay (df ! i)) (bonus (df ! i))
        \<and> log_total (clean fadd df ! i) = np_log (value_of (totalPay (clean fadd df ! i)))
        \<and> (\<forall>a b. basePay (df ! i) = I64 a \<and> bonus (df ! i) = I64 b \<longrightarrow>
              totalPay (clean fadd df ! i) = I64 (a + b)
              \<and> (- (2 ^ 63) \<le> sint a + sint b \<and> sint a + sint b < 2 ^ 63 \<longrightarrow>
                   value_of (totalPay (clean fadd df ! i))
                     = Some (real_of_int (sint a) + real_of_int (sint b))))
        \<and> (\<forall>x y. basePay (df ! i) = F64 x \<and> bonus (df ! i) = F64 y \<longrightarrow>
              totalPay (clean fadd df ! i) = F64 (fadd x y))
        \<and> (\<forall>a y. basePay (df ! i) = I64 a \<and> bonus (df ! i) = F64 y \<longrightarrow>
              totalPay (clean fadd df ! i) = F64 (fadd (real_of_int (sint a)) y))
        \<and> (\<forall>x b. basePay (df ! i) = F64 x \<and> bonus (df ! i) = I64 b \<longrightarrow>
              totalPay (clean fadd df ! i) = F64 (fadd x (real_of_int (sint b))))
        \<and> (basePay (df ! i) = NA \<or> bonus (df ! i) = NA \<longrightarrow>
              totalPay (clean fadd df ! i) = NA)
        \<and> (\<forall>t. value_of (totalPay (clean fadd df ! i)) = Some t \<and> 0 < t \<longrightarrow>
              log_total (clean fadd df ! i) = Fin (ln t)))"
proof (intro conjI allI impI)
  show "length (clean fadd df) = length df" by (simp add: clean_def)
next
  fix i assume "i < length df"
  then show "totalPay (clean fadd df ! i) = add_num fadd (basePay (df ! i)) (bonus (df ! i))"
    by (simp add: clean_nth clean_row_fields)
next
  fix i assume "i < length df"
  then show "log_total (clean fadd df ! i) = np_log (value_of (totalPay (clean fadd df ! i)))"
    by (simp add: clean_nth clean_row_fields)
next
  fix i a b assume "i < length df" "basePay (df ! i) = I64 a \<and> bonus (df ! i) = I64 b"
  then show "totalPay (clean fadd df ! i) = I64 (a + b)"
    by (simp add: clean_nth clean_row_fields)
next
  fix i a b
  assume "i < length df" "basePay (df ! i) = I64 a \<and> bonus (df ! i) = I64 b"
    and r: "- (2 ^ 63) \<le> sint a + sint b \<and> sint a + sint b < 2 ^ 63"
  then have "totalPay (clean fadd df ! i) = add_num fadd (I64 a) (I64 b)"
    by (simp add: clean_nth clean_row_fields)
  moreover from r
  have "value_of (add_num fadd (I64 a) (I64 b)) = Some (real_of_int (sint a) + real_of_int (sint b))"
    by (intro add_num_exact) simp_all
  ultimately show "value_of (totalPay (clean fadd df ! i))
      = Some (real_of_int (sint a) + real_of_int (sint b))"
    by simp
next
  fix i x y assume "i < length df" "basePay (df ! i) = F64 x \<and> bonus (df ! i) = F64 y"
  then show "totalPay (clean fadd df ! i) = F64 (fadd x y)"
    by (simp add: clean_nth clean_row_fields)
next
  fix i a y assume "i < length df" "basePay (df ! i) = I64 a \<and> bonus (df ! i) = F64 y"
  then show "totalPay (clean fadd df ! i) = F64 (fadd (real_of_int (sint a)) y)"
    by (simp add: clean_nth clean_row_fields)
next
  fix i x b assume "i < length df" "basePay (df ! i) = F64 x \<and> bonus (df ! i) = I64 b"
  then show "totalPay (clean fadd df ! i) = F64 (fadd x (real_of_int (sint b)))"
    by (simp add: clean_nth clean_row_fields)
next
  fix i assume "i < length df" "basePay (df ! i) = NA \<or> bonus (df ! i) = NA"
  then show "totalPay (clean fadd df ! i) = NA"
    by (simp add: clean_nth clean_row_fields add_num_missing)
next
  fix i t
  assume "i < length df" "value_of (totalPay (clean fadd df ! i)) = Some t \<and> 0 < t"
  then show "log_total (clean fadd df ! i) = Fin (ln t)"
    by (simp add: clean_nth clean_row_fields np_log_positive)
qed

theorem total_pay_is_sum_witness:
  "(0::nat) < length [employee (Some ''Female'') (Some 40) (I64 1) (I64 0)]
   \<and> basePay ([employee (Some ''Female'') (Some 40) (I64 1) (I64 0)] ! 0) = I64 1
   \<and> bonus ([employee (Some ''Female'') (Some 40) (I64 1) (I64 0)] ! 0) = I64 0
   \<and> - (2 ^ 63) \<le> sint (1 :: 64 word) + sint (0 :: 64 word)
   \<and> sint (1 :: 64 word) + sint (0 :: 64 word) < 2 ^ 63
   \<and> totalPay (clean (+) [employee (Some ''Female'') (Some 40) (I64 1) (I64 0)] ! 0) = I64 1
   \<and> value_of (totalPay (clean (+) [employee (Some ''Female'') (Some 40) (I64 1) (I64 0)] ! 0))
       = Some 1
   \<and> log_total (clean (+) [employee (Some ''Female'') (Some 40) (I64 1) (I64 0)] ! 0) = Fin 0"
proof -
  let ?df = "[employee (Some ''Female'') (Some 40) (I64 1) (I64 0)]"
  have a: "(0::nat) < length ?df" "basePay (?df ! 0) = I64 1 \<and> bonus (?df ! 0) = I64 0"
    by (simp_all add: employee_def)
  have b: "- (2 ^ 63) \<le> sint (1 :: 64 word) + sint (0 :: 64 word)
      \<and> sint (1 :: 64 word) + sint (0 :: 64 word) < 2 ^ 63"
    by simp
  note t = total_pay_is_sum [of "(+)" ?df]
  from t a have c: "totalPay (clean (+) ?df ! 0) = I64 (1 + 0)" by blast
  from t a b have d: "value_of (totalPay (clean (+) ?df ! 0))
      = Some (real_of_int (sint (1 :: 64 word)) + real_of_int (sint (0 :: 64 word)))"
    by blast
  then have d': "value_of (totalPay (clean (+) ?df ! 0)) = Some 1 \<and> (0::real) < 1" by simp
  with t a have e: "log_total (clean (+) ?df ! 0) = Fin (ln 1)" by blast
  from a b c d' e show ?thesis by simp
qed

lemma age_bin_missing: "age_bin_of None = 0"
  by (simp add: age_bin_of_def lt_na_def ge_na_def)

lemma age_bin_present:
  "age_bin_of (Some a) =
     (if a < 25 then 1 else if a < 35 then 2 else if a < 45 then 3 else if a < 55 then 4 else 5)"
  by (simp add: age_bin_of_def lt_na_def ge_na_def)

text \<open>
  Claim C9. After the age-binning step the bin of a row is one of 0 to 5. For a row whose
  age is present exactly one of the five cutoff conditions holds and the bin is the number,
  1 to 5, of that condition; a row whose age is missing keeps the initial value 0.
\<close>

theorem age_bin_range:
  "age_bin (clean_row fadd r) \<in> {0, 1, 2, 3, 4, 5}
   \<and> (age r = None \<longrightarrow> age_bin (clean_row fadd r) = 0)
   \<and> (\<forall>a. age r = Some a \<longrightarrow>
         length (filter id [a < 25, 25 \<le> a \<and> a < 35, 35 \<le> a \<and> a < 45,
                            45 \<le> a \<and> a < 55, 55 \<le> a]) = 1
         \<and> age_bin (clean_row fadd r) \<in> {1, 2, 3, 4, 5}
         \<and> (age_bin (clean_row fadd r) = 1 \<longleftrightarrow> a < 25)
         \<and> (age_bin (clean_row fadd r) = 2 \<longleftrightarrow> 25 \<le> a \<and> a < 35)
         \<and> (age_bin (clean_row fadd r) = 3 \<longleftrightarrow> 35 \<le> a \<and> a < 45)
         \<and> (age_bin (clean_row fadd r) = 4 \<longleftrightarrow> 45 \<le> a \<and> a < 55)
         \<and> (age_bin (clean_row fadd r) = 5 \<longleftrightarrow> 55 \<le> a))"
proof (cases "age r")
  case None
  then show ?thesis by (simp add: clean_row_fields age_bin_missing)
next
  case (Some a)
  then show ?thesis by (simp add: clean_row_fields age_bin_present)
qed

theorem age_bin_range_witness:
  "age (employee None (Some 30) NA NA) = Some 30
   \<and> age_bin (clean_row (+) (employee None (Some 30) NA NA)) = 2
   \<and> age (employee None None NA NA) = None
   \<and> age_bin (clean_row (+) (employee None None NA NA)) = 0"
proof -
  have a: "age (employee None (Some 30) NA NA) = Some 30"
    "age (employee None None NA NA) = None"
    by (simp_all add: employee_def)
  from age_bin_range [of "(+)" "employee None (Some 30) NA NA"] a(1)
  have "age_bin (clean_row (+) (employee None (Some 30) NA NA)) = 2" by simp
  moreover from age_bin_range [of "(+)" "employee None None NA NA"] a(2)
  have "age_bin (clean_row (+) (employee None None NA NA)) = 0" by blast
  ultimately show ?thesis using a by simp
qed

subsection \<open>What the regressions read of a row\<close>
















subsection \<open>Logarithms of non-positive pay\<close>





lemma log_bonus_at_maximum:
  "log_bonus (clean_row fadd (employee g a p (I64 9223372036854775807))) = NaN"
  by (simp add: clean_row_fields employee_def np_log_def)




lemma log_total_at_zero_total:
  "log_total (clean_row fadd (employee g a (I64 10) (I64 (- 10)))) = NegInf"
  by (simp add: clean_row_fields np_log_def employee_def)

subsection \<open>Grouped statistics\<close>
























end
